theory Spec2Isabelle
  imports Main "HOL-Library.Product_Lexorder"
begin

section \<open>Data model (models.py)\<close>

text \<open>
  A \<open>Team\<close> row: its primary key and its display name. Django compares model instances
  by primary key, and a foreign-key filter compares the key column, so every comparison
  of teams below is written on \<open>team_pk\<close>.
\<close>

record team =
  team_pk :: nat
  name :: string

text \<open>
  A \<open>datetime\<close>: its wall-clock reading in seconds and its time zone, \<open>None\<close> for a
  naive datetime and the name of the zone for an aware one. A \<open>timedelta\<close> is a number of
  seconds. Adding a \<open>timedelta\<close> to a datetime moves the wall-clock reading and keeps the
  time zone.
\<close>

record datetime =
  wall :: int
  tzinfo :: "string option"

definition timedelta :: "int \<Rightarrow> int" where
  "timedelta days = days * 86400"

definition plus_timedelta :: "datetime \<Rightarrow> int \<Rightarrow> datetime" where
  "plus_timedelta value delta = value\<lparr>wall := wall value + delta\<rparr>"

text \<open>
  The framework's \<open>timezone.make_aware\<close>, with the current time zone \<open>tz\<close> of the server:
  a naive datetime gets the zone and keeps its wall-clock reading; an aware one is refused
  with a \<open>ValueError\<close>.
\<close>

definition make_aware :: "string \<Rightarrow> datetime \<Rightarrow> string + datetime" where
  "make_aware tz value =
     (if tzinfo value \<noteq> None then Inl ''make_aware expects a naive datetime''
      else Inr (value\<lparr>tzinfo := Some tz\<rparr>))"

text \<open>
  A \<open>Match\<close> object. \<open>match_pk\<close> is \<open>None\<close> for an object that was never saved.
\<close>

record match =
  match_pk :: "nat option"
  home_team :: team
  away_team :: team
  match_date :: datetime
  venue :: "string option"
  home_score :: int
  away_score :: int
  is_played :: bool
  referee :: "nat option"

text \<open>
  The constructor call \<open>Match(home_team=.., away_team=.., match_date=.., is_played=False)\<close>
  of the fixture command: every other field takes the default of its declaration.
\<close>

definition Match :: "team \<Rightarrow> team \<Rightarrow> datetime \<Rightarrow> bool \<Rightarrow> match" where
  "Match h a d p =
     \<lparr>match_pk = None, home_team = h, away_team = a, match_date = d, venue = None,
      home_score = 0, away_score = 0, is_played = p, referee = None\<rparr>"

text \<open>
  The store: the team table, in the order the default manager yields it, and the match
  table, in insertion order.
\<close>

record db =
  db_teams :: "team list"
  db_matches :: "match list"

section \<open>Saving a match\<close>

text \<open>
  The arguments that \<open>Match.save(*args, **kwargs)\<close> forwards to the framework's save:
  \<open>force_insert\<close>, \<open>force_update\<close> and \<open>update_fields\<close>. A bare \<open>save()\<close> passes
  \<open>no_args\<close>.
\<close>

record save_args =
  force_insert :: bool
  force_update :: bool
  update_fields :: "string list option"

definition no_args :: save_args where
  "no_args = \<lparr>force_insert = False, force_update = False, update_fields = None\<rparr>"

text \<open>The names under which \<open>update_fields\<close> may list the columns of a match.\<close>

definition match_fields :: "string list" where
  "match_fields =
     [''home_team'', ''home_team_id'', ''away_team'', ''away_team_id'', ''match_date'',
      ''venue'', ''home_score'', ''away_score'', ''is_played'', ''referee'', ''referee_id'']"

text \<open>An update restricted to the columns \<open>fs\<close>: the row takes these from the object.\<close>

definition write_fields :: "string list \<Rightarrow> match \<Rightarrow> match \<Rightarrow> match" where
  "write_fields fs m row =
     row\<lparr>home_team :=
           (if ''home_team'' \<in> set fs \<or> ''home_team_id'' \<in> set fs then home_team m
            else home_team row),
         away_team :=
           (if ''away_team'' \<in> set fs \<or> ''away_team_id'' \<in> set fs then away_team m
            else away_team row),
         match_date := (if ''match_date'' \<in> set fs then match_date m else match_date row),
         venue := (if ''venue'' \<in> set fs then venue m else venue row),
         home_score := (if ''home_score'' \<in> set fs then home_score m else home_score row),
         away_score := (if ''away_score'' \<in> set fs then away_score m else away_score row),
         is_played := (if ''is_played'' \<in> set fs then is_played m else is_played row),
         referee :=
           (if ''referee'' \<in> set fs \<or> ''referee_id'' \<in> set fs then referee m
            else referee row)\<rparr>"

text \<open>
  The framework's \<open>Model.save\<close>. Whether the backend raises on a write is decided by
  the environment: \<open>err rows m\<close> is the exception text, if any, that writing \<open>m\<close> to a
  table holding \<open>rows\<close> raises. Without arguments, an object without a primary key is
  inserted under a fresh key, and an object with a key replaces the row of that key, or is
  inserted when there is none. An empty \<open>update_fields\<close> skips the save; a nonempty one
  writes only the listed columns of the row of the object's key; the combinations and
  column names that the framework refuses are refused with its exception.
\<close>

type_synonym storage = "match list \<Rightarrow> match \<Rightarrow> string option"

definition next_pk :: "match list \<Rightarrow> nat" where
  "next_pk rows = Suc (foldr (\<lambda>r k. case match_pk r of None \<Rightarrow> k | Some j \<Rightarrow> max j k) rows 0)"

definition Model_save :: "storage \<Rightarrow> db \<Rightarrow> save_args \<Rightarrow> match \<Rightarrow> string + (match \<times> db)" where
  "Model_save err d args m =
     (let partial = (update_fields args \<noteq> None \<and> update_fields args \<noteq> Some [])
      in if force_insert args \<and> (force_update args \<or> partial)
         then Inl ''Cannot force both insert and updating in model saving.''
         else if update_fields args = Some [] then Inr (m, d)
         else if partial \<and> \<not> set (the (update_fields args)) \<subseteq> set match_fields
         then Inl ''The following fields do not exist in this model''
         else
           (case match_pk m of
              None \<Rightarrow>
                if force_update args \<or> partial
                then Inl ''Cannot force an update in save() with no primary key.''
                else
                  (case err (db_matches d) m of
                     Some e \<Rightarrow> Inl e
                   | None \<Rightarrow>
                       (let m' = m\<lparr>match_pk := Some (next_pk (db_matches d))\<rparr>
                        in Inr (m', d\<lparr>db_matches := db_matches d @ [m']\<rparr>)))
            | Some k \<Rightarrow>
                (case err (db_matches d) m of
                   Some e \<Rightarrow> Inl e
                 | None \<Rightarrow>
                     if force_insert args
                     then (if Some k \<in> set (map match_pk (db_matches d))
                           then Inl ''UNIQUE constraint failed''
                           else Inr (m, d\<lparr>db_matches := db_matches d @ [m]\<rparr>))
                     else if Some k \<in> set (map match_pk (db_matches d))
                     then Inr (m, d\<lparr>db_matches :=
                            map (\<lambda>r. if match_pk r = Some k
                                     then (if partial then write_fields (the (update_fields args)) m r
                                           else m)
                                     else r) (db_matches d)\<rparr>)
                     else if force_update args
                     then Inl ''Forced update did not affect any rows.''
                     else if partial
                     then Inl ''Save with update_fields did not affect any rows.''
                     else Inr (m, d\<lparr>db_matches := db_matches d @ [m]\<rparr>))))"

text \<open>
  \<open>Match.save\<close>: the played flag is recomputed from the scores on the object itself,
  then the framework's save runs with the arguments of the call. The object is returned
  as the call leaves it, also when the framework's save raises.
\<close>

definition Match_save :: "storage \<Rightarrow> db \<Rightarrow> save_args \<Rightarrow> match \<Rightarrow> match \<times> (string + db)" where
  "Match_save err d args self =
     (let self1 = (if home_score self > 0 \<or> away_score self > 0
                   then self\<lparr>is_played := True\<rparr>
                   else self\<lparr>is_played := False\<rparr>)
      in case Model_save err d args self1 of
           Inl e \<Rightarrow> (self1, Inl e)
         | Inr (self2, d') \<Rightarrow> (self2, Inr d'))"

section \<open>Standings (TeamStandingsManager.get_standings)\<close>

text \<open>
  One row of the table: the dictionary with the keys \<open>team\<close>, \<open>P\<close>, \<open>W\<close>, \<open>D\<close>, \<open>L\<close>,
  \<open>GF\<close>, \<open>GA\<close>, \<open>GD\<close> and \<open>Pts\<close>.
\<close>

record stats =
  row_team :: team
  row_P :: int
  row_W :: int
  row_D :: int
  row_L :: int
  row_GF :: int
  row_GA :: int
  row_GD :: int
  row_Pts :: int

text \<open>
  The query \<open>played_home | played_away\<close>: the rows of the match table that are played
  and have the team as home or as away side, each row once.
\<close>

definition all_played :: "db \<Rightarrow> team \<Rightarrow> match list" where
  "all_played d t =
     filter (\<lambda>m. (team_pk (home_team m) = team_pk t \<and> is_played m)
                \<or> (team_pk (away_team m) = team_pk t \<and> is_played m)) (db_matches d)"

text \<open>The body of the loop over the team's played matches.\<close>

definition tally :: "team \<Rightarrow> stats \<Rightarrow> match \<Rightarrow> stats" where
  "tally t s m =
     (let (gf, ga) = (if team_pk (home_team m) = team_pk t
                      then (home_score m, away_score m)
                      else (away_score m, home_score m));
          s1 = s\<lparr>row_GF := row_GF s + gf\<rparr>;
          s2 = s1\<lparr>row_GA := row_GA s1 + ga\<rparr>
      in if gf > ga then s2\<lparr>row_W := row_W s2 + 1, row_Pts := row_Pts s2 + 3\<rparr>
         else if gf = ga then s2\<lparr>row_D := row_D s2 + 1, row_Pts := row_Pts s2 + 1\<rparr>
         else s2\<lparr>row_L := row_L s2 + 1\<rparr>)"

definition team_stats :: "db \<Rightarrow> team \<Rightarrow> stats" where
  "team_stats d t =
     (let played = all_played d t;
          s0 = \<lparr>row_team = t, row_P = int (length played),
                row_W = 0, row_D = 0, row_L = 0,
                row_GF = 0, row_GA = 0, row_GD = 0, row_Pts = 0\<rparr>;
          s = foldl (tally t) s0 played
      in s\<lparr>row_GD := row_GF s - row_GA s\<rparr>)"

text \<open>The sort key \<open>lambda x: (x['Pts'], x['GD'], x['GF'])\<close>; tuples compare lexicographically.\<close>

definition standings_key :: "stats \<Rightarrow> int \<times> int \<times> int" where
  "standings_key x = (row_Pts x, row_GD x, row_GF x)"

text \<open>
  \<open>list.sort(key=.., reverse=True)\<close>: the list is reversed, sorted by a stable ascending
  sort, and reversed again.
\<close>

definition sort_reverse :: "('a \<Rightarrow> 'k::linorder) \<Rightarrow> 'a list \<Rightarrow> 'a list" where
  "sort_reverse key xs = rev (sort_key key (rev xs))"

text \<open>
  \<open>get_standings\<close> runs queries only; the store is threaded through and returned so
  that what the call leaves behind is part of the result.
\<close>

definition get_standings :: "db \<Rightarrow> stats list \<times> db" where
  "get_standings d =
     (let teams = db_teams d;
          standings = map (team_stats d) teams
      in (sort_reverse standings_key standings, d))"

section \<open>Fixture generation (generate_fixtures.py, Command.handle)\<close>

datatype error = CommandError string | ValueError string

text \<open>
  What the command writes to its standard output, one constructor per \<open>write\<close> call of
  the source, carrying the values the call formats into its line.
\<close>

datatype out_line =
    Starting
  | StartDateSet datetime
  | MatchDaysSeparated int
  | ExistingMatchesWarning
  | GeneratingFirstLeg nat
  | RoundHeader nat datetime
  | Pairing string string
  | GeneratingSecondLeg
  | ReturnPairing string string
  | Committing nat
  | Progress nat nat
  | CriticalSaveError string
  | SuccessfullyCreated nat

definition days_between_weeks :: int where
  "days_between_weeks = 7"

text \<open>
  \<open>datetime.combine(date, time)\<close> with the date in days and the time in seconds: a naive
  datetime.
\<close>

definition combine :: "int \<Rightarrow> int \<Rightarrow> datetime" where
  "combine date time = \<lparr>wall = timedelta date + time, tzinfo = None\<rparr>"

text \<open>The seat list: a \<open>None\<close> seat is appended when the number of teams is odd.\<close>

definition seats :: "team list \<Rightarrow> team option list" where
  "seats all_teams =
     (if length all_teams mod 2 \<noteq> 0 then map Some all_teams @ [None] else map Some all_teams)"

text \<open>
  The loop \<open>for i in range(half_size)\<close> of one round. Both seats must hold a team for a
  match to be made. The seat list has the even length \<open>2 * half_size\<close> throughout, so
  both indices are within the list.
\<close>

fun pair_loop ::
  "team option list \<Rightarrow> nat \<Rightarrow> datetime \<Rightarrow> nat list \<Rightarrow> match list \<times> out_line list
     \<Rightarrow> match list \<times> out_line list" where
  "pair_loop teams half_size current_datetime [] acc = acc"
| "pair_loop teams half_size current_datetime (i # rest) (all_matches_to_save, out) =
     pair_loop teams half_size current_datetime rest
       (case (teams ! i, teams ! (i + half_size)) of
          (Some team1, Some team2) \<Rightarrow>
            (all_matches_to_save @ [Match team1 team2 current_datetime False],
             out @ [Pairing (name team1) (name team2)])
        | _ \<Rightarrow> (all_matches_to_save, out))"

text \<open>\<open>teams.insert(1, teams.pop())\<close>: the last seat is removed and put at index 1.\<close>

definition rotate_seats :: "team option list \<Rightarrow> team option list" where
  "rotate_seats teams =
     (let popped = last teams; remaining = butlast teams
      in take 1 remaining @ [popped] @ drop 1 remaining)"

text \<open>The loop \<open>for round_num in range(total_rounds)\<close>.\<close>

fun round_loop ::
  "nat \<Rightarrow> nat list \<Rightarrow> team option list \<times> datetime \<times> match list \<times> out_line list
     \<Rightarrow> team option list \<times> datetime \<times> match list \<times> out_line list" where
  "round_loop num_teams [] st = st"
| "round_loop num_teams (round_num # rest) (teams, current_datetime, all_matches_to_save, out) =
     (let current_datetime1 =
            (if round_num > 0
             then plus_timedelta current_datetime (timedelta days_between_weeks)
             else current_datetime);
          out1 = out @ [RoundHeader (round_num + 1) current_datetime1];
          half_size = num_teams div 2;
          (all_matches_to_save1, out2) =
            pair_loop teams half_size current_datetime1 [0..<half_size] (all_matches_to_save, out1)
      in round_loop num_teams rest
           (rotate_seats teams, current_datetime1, all_matches_to_save1, out2))"

text \<open>Phase 1: the first leg, from the seat list and the start date.\<close>

definition first_leg :: "team list \<Rightarrow> datetime \<Rightarrow> match list \<times> out_line list" where
  "first_leg all_teams start =
     (let teams = seats all_teams;
          num_teams = length teams;
          total_rounds = num_teams - 1;
          (teams1, current_datetime, all_matches_to_save, out) =
            round_loop num_teams [0..<total_rounds] (teams, start, [], [])
      in (all_matches_to_save, out))"

text \<open>Phase 2: the return fixture of one first-leg match, and the loop over the copy.\<close>

definition match_away :: "nat \<Rightarrow> match \<Rightarrow> match" where
  "match_away total_rounds m =
     Match (away_team m) (home_team m)
       (plus_timedelta (match_date m) (timedelta (int total_rounds * days_between_weeks)))
       False"

definition second_leg :: "nat \<Rightarrow> match list \<Rightarrow> match list \<times> out_line list" where
  "second_leg total_rounds leg1_matches_copy =
     (map (match_away total_rounds) leg1_matches_copy,
      map (\<lambda>m. ReturnPairing (name (home_team (match_away total_rounds m)))
                               (name (away_team (match_away total_rounds m))))
        leg1_matches_copy)"

text \<open>Phases 1 and 2 together: the list \<open>all_matches_to_save\<close> and the lines written.\<close>

definition fixtures :: "team list \<Rightarrow> datetime \<Rightarrow> match list \<times> out_line list" where
  "fixtures all_teams start =
     (let num_actual_teams = length all_teams;
          total_rounds = length (seats all_teams) - 1;
          (leg1, out1) = first_leg all_teams start
      in if num_actual_teams > 2
         then (let (leg2, out2) = second_leg total_rounds leg1
               in (leg1 @ leg2, out1 @ [GeneratingSecondLeg] @ out2))
         else (leg1, out1))"

text \<open>
  Phase 3: the loop that saves the matches one by one inside \<open>try\<close>. The first save that
  raises ends the loop with the exception text; the store and the counter are then what
  the saves before it left.
\<close>

fun save_loop ::
  "storage \<Rightarrow> nat \<Rightarrow> match list \<Rightarrow> db \<times> nat \<times> out_line list
     \<Rightarrow> string option \<times> db \<times> nat \<times> out_line list" where
  "save_loop err total_matches [] (d, count, out) = (None, d, count, out)"
| "save_loop err total_matches (m # rest) (d, count, out) =
     (case Match_save err d no_args m of
        (m1, Inl e) \<Rightarrow> (Some e, d, count, out)
      | (m1, Inr d1) \<Rightarrow>
          (let count1 = count + 1;
               out1 = (if count1 mod 10 = 0 then out @ [Progress count1 total_matches] else out)
           in save_loop err total_matches rest (d1, count1, out1)))"

text \<open>
  The command. \<open>today\<close> is \<open>date.today()\<close> in days and \<open>tz\<close> the current time zone of
  the server. The result is the raised exception or a normal return, with the store and
  the output as the run leaves them.
\<close>

definition handle ::
  "storage \<Rightarrow> string \<Rightarrow> int \<Rightarrow> db \<Rightarrow> (error + unit) \<times> db \<times> out_line list" where
  "handle err tz today d =
     (let start_date_naive = combine (today + 1) 0
      in case make_aware tz start_date_naive of
           Inl e \<Rightarrow> (Inl (ValueError e), d, [])
         | Inr start \<Rightarrow>
     (let out0 = [Starting, StartDateSet start, MatchDaysSeparated days_between_weeks];
          all_teams = sort_key team_pk (db_teams d);
          num_actual_teams = length all_teams
      in if num_actual_teams < 2
         then (Inl (CommandError ''Need at least 2 teams to generate a schedule.''), d, out0)
         else
           (let out1 = (if db_matches d \<noteq> [] then out0 @ [ExistingMatchesWarning] else out0);
                out2 = out1 @ [GeneratingFirstLeg num_actual_teams];
                (all_matches_to_save, out3) = fixtures all_teams start;
                total_matches = length all_matches_to_save;
                out4 = out2 @ out3 @ [Committing total_matches]
            in case save_loop err total_matches all_matches_to_save (d, 0, out4) of
                 (Some e, d1, count, out5) \<Rightarrow> (Inr (), d1, out5 @ [CriticalSaveError e])
               | (None, d1, count, out5) \<Rightarrow> (Inr (), d1, out5 @ [SuccessfullyCreated count]))))"

section \<open>Notions used in the statements\<close>

text \<open>The row of a team that has played nothing.\<close>

definition zero_row :: "team \<Rightarrow> stats" where
  "zero_row t = \<lparr>row_team = t, row_P = 0, row_W = 0, row_D = 0, row_L = 0,
                 row_GF = 0, row_GA = 0, row_GD = 0, row_Pts = 0\<rparr>"

text \<open>
  \<open>ranks_not_below a b\<close>: the tuple (Pts, GD, GF) of \<open>a\<close> is at least that of \<open>b\<close> in
  the lexicographic order, written out on the fields.
\<close>

definition ranks_not_below :: "stats \<Rightarrow> stats \<Rightarrow> bool" where
  "ranks_not_below a b =
     (row_Pts a > row_Pts b
      \<or> (row_Pts a = row_Pts b
          \<and> (row_GD a > row_GD b \<or> (row_GD a = row_GD b \<and> row_GF a \<ge> row_GF b))))"

text \<open>
  What \<open>Match.save\<close> makes of an object: \<open>flagged m\<close> is the object once the played flag
  is recomputed, \<open>stored k m\<close> the row it becomes when inserted under the key \<open>k\<close>, and
  \<open>stored_rows k ms\<close> the rows of a run of inserts under the keys \<open>k\<close>, \<open>k + 1\<close>, ...
\<close>

definition flagged :: "match \<Rightarrow> match" where
  "flagged m = m\<lparr>is_played := (home_score m > 0 \<or> away_score m > 0)\<rparr>"

definition stored :: "nat \<Rightarrow> match \<Rightarrow> match" where
  "stored k m = (flagged m)\<lparr>match_pk := Some k\<rparr>"

fun stored_rows :: "nat \<Rightarrow> match list \<Rightarrow> match list" where
  "stored_rows k [] = []"
| "stored_rows k (m # ms) = stored k m # stored_rows (Suc k) ms"

text \<open>
  The progress lines of \<open>k\<close> successful saves that start from the counter \<open>count\<close>: one
  for every counter value divisible by ten.
\<close>

definition progress_lines :: "nat \<Rightarrow> nat \<Rightarrow> nat \<Rightarrow> out_line list" where
  "progress_lines count k total_matches =
     map (\<lambda>j. Progress j total_matches)
       (filter (\<lambda>j. j mod 10 = 0) [Suc count..<Suc (count + k)])"

text \<open>\<open>fixture x y m\<close>: the match \<open>m\<close> has \<open>x\<close> as home side and \<open>y\<close> as away side.\<close>

definition fixture :: "team \<Rightarrow> team \<Rightarrow> match \<Rightarrow> bool" where
  "fixture x y m = (team_pk (home_team m) = team_pk x \<and> team_pk (away_team m) = team_pk y)"

text \<open>
  The start date of the command: tomorrow at midnight on the wall clock, aware, in the
  time zone \<open>tz\<close>.
\<close>

definition start_date :: "string \<Rightarrow> int \<Rightarrow> datetime" where
  "start_date tz today = \<lparr>wall = timedelta (today + 1), tzinfo = Some tz\<rparr>"

text \<open>
  The lines \<open>handle\<close> writes before it generates the fixtures of a store with at least
  two teams.
\<close>

definition opening_lines :: "string \<Rightarrow> int \<Rightarrow> db \<Rightarrow> out_line list" where
  "opening_lines tz today d =
     [Starting, StartDateSet (start_date tz today), MatchDaysSeparated days_between_weeks]
     @ (if db_matches d \<noteq> [] then [ExistingMatchesWarning] else [])
     @ [GeneratingFirstLeg (length (db_teams d))]"

text \<open>\<open>unsaved m\<close>: the object is as the fixture command constructs it.\<close>

definition unsaved :: "match \<Rightarrow> bool" where
  "unsaved m = (m = Match (home_team m) (away_team m) (match_date m) False)"

section \<open>Concrete inputs\<close>

definition team_A :: team where "team_A = \<lparr>team_pk = 1, name = ''A''\<rparr>"
definition team_B :: team where "team_B = \<lparr>team_pk = 2, name = ''B''\<rparr>"
definition team_C :: team where "team_C = \<lparr>team_pk = 3, name = ''C''\<rparr>"
definition team_D :: team where "team_D = \<lparr>team_pk = 4, name = ''D''\<rparr>"
definition team_E :: team where "team_E = \<lparr>team_pk = 5, name = ''E''\<rparr>"
definition team_F :: team where "team_F = \<lparr>team_pk = 6, name = ''F''\<rparr>"

text \<open>A time zone, and an aware datetime in it.\<close>

definition nairobi :: string where
  "nairobi = ''Africa/Nairobi''"

definition kickoff :: datetime where
  "kickoff = \<lparr>wall = 0, tzinfo = Some nairobi\<rparr>"

definition league :: "team list \<Rightarrow> db" where
  "league ts = \<lparr>db_teams = ts, db_matches = []\<rparr>"

text \<open>A backend that never raises, and one that raises once the table holds \<open>k\<close> rows.\<close>

definition never_fails :: storage where
  "never_fails rows m = None"

definition fails_at :: "nat \<Rightarrow> storage" where
  "fails_at k rows m = (if length rows = k then Some ''database is locked'' else None)"

text \<open>
  A season of five teams with three results, A 2-1 B, C 1-1 B and A 0-3 C; the teams D and
  E have not played.
\<close>

definition result :: "nat \<Rightarrow> team \<Rightarrow> int \<Rightarrow> int \<Rightarrow> team \<Rightarrow> match" where
  "result k h hg ag a =
     \<lparr>match_pk = Some k, home_team = h, away_team = a, match_date = kickoff, venue = None,
      home_score = hg, away_score = ag, is_played = True, referee = None\<rparr>"

definition season :: db where
  "season = \<lparr>db_teams = [team_A, team_B, team_C, team_D, team_E],
             db_matches = [result 1 team_A 2 1 team_B, result 2 team_C 1 1 team_B,
                           result 3 team_A 0 3 team_C]\<rparr>"

section \<open>The played flag\<close>

text \<open>
  Claim C3. After every save of a match, whatever arguments the call passes on and
  whatever the flag was before, the played flag of the match is true exactly when one of
  the two scores is greater than zero: the object that \<open>Match.save\<close> leaves has the flag
  recomputed from its scores, which the save does not change, also when the framework's
  save raises. When a save of the whole object (no \<open>update_fields\<close>) succeeds, that
  object is a row of the table.
\<close>

theorem match_save_is_played:
  "(let (m', r) = Match_save err d args m
    in (is_played m' \<longleftrightarrow> (home_score m' > 0 \<or> away_score m' > 0))
       \<and> home_score m' = home_score m \<and> away_score m' = away_score m
       \<and> (\<forall>d'. r = Inr d' \<longrightarrow> update_fields args = None \<longrightarrow> m' \<in> set (db_matches d')))"
  by (auto simp: Match_save_def Model_save_def Let_def split: option.splits)

theorem match_save_is_played_witness:
  "(let (m', r) = Match_save never_fails (league [team_A, team_B]) no_args
                    (Match team_A team_B kickoff True)
    in \<not> is_played m' \<and> home_score m' = 0 \<and> away_score m' = 0
       \<and> update_fields no_args = None
       \<and> r = Inr \<lparr>db_teams = [team_A, team_B], db_matches = [m']\<rparr>)
   \<and> (let (m', r) = Match_save never_fails (league [team_A, team_B]) no_args
                       ((Match team_A team_B kickoff False)\<lparr>away_score := 2\<rparr>)
      in is_played m' \<and> r = Inr \<lparr>db_teams = [team_A, team_B], db_matches = [m']\<rparr>)
   \<and> (let (m', r) = Match_save never_fails
                       \<lparr>db_teams = [team_A, team_B],
                        db_matches = [(Match team_A team_B kickoff False)\<lparr>match_pk := Some 1\<rparr>]\<rparr>
                       (no_args\<lparr>update_fields := Some [''home_score'']\<rparr>)
                       ((Match team_A team_B kickoff False)\<lparr>match_pk := Some 1, home_score := 2\<rparr>)
      in is_played m' \<and> home_score m' = 2)"
  using match_save_is_played[of never_fails "league [team_A, team_B]" no_args
      "Match team_A team_B kickoff True"]
    match_save_is_played[of never_fails "league [team_A, team_B]" no_args
      "(Match team_A team_B kickoff False)\<lparr>away_score := 2\<rparr>"]
    match_save_is_played[of never_fails
      "\<lparr>db_teams = [team_A, team_B],
        db_matches = [(Match team_A team_B kickoff False)\<lparr>match_pk := Some 1\<rparr>]\<rparr>"
      "no_args\<lparr>update_fields := Some [''home_score'']\<rparr>"
      "(Match team_A team_B kickoff False)\<lparr>match_pk := Some 1, home_score := 2\<rparr>"]
  by (simp add: Match_save_def Model_save_def never_fails_def league_def Match_def Let_def
      no_args_def match_fields_def next_pk_def)

text \<open>
  A save restricted by \<open>update_fields\<close> writes only the listed columns: with
  \<open>update_fields=['home_score']\<close> the row gets the new score and keeps its old flag,
  while the object has the flag recomputed.
\<close>

lemma match_save_update_fields_row:
  "Match_save never_fails
     \<lparr>db_teams = [team_A, team_B],
      db_matches = [(Match team_A team_B kickoff False)\<lparr>match_pk := Some 1\<rparr>]\<rparr>
     (no_args\<lparr>update_fields := Some [''home_score'']\<rparr>)
     ((Match team_A team_B kickoff False)\<lparr>match_pk := Some 1, home_score := 2\<rparr>)
   = ((Match team_A team_B kickoff True)\<lparr>match_pk := Some 1, home_score := 2\<rparr>,
      Inr \<lparr>db_teams = [team_A, team_B],
           db_matches = [(Match team_A team_B kickoff False)\<lparr>match_pk := Some 1, home_score := 2\<rparr>]\<rparr>)"
  by (simp add: Match_save_def Model_save_def never_fails_def Match_def Let_def
      no_args_def match_fields_def write_fields_def)

section \<open>Standings\<close>

lemma sort_reverse_stable:
  "filter (\<lambda>x. key x = k) (sort_reverse key xs) = filter (\<lambda>x. key x = k) xs"
  by (simp add: sort_reverse_def rev_filter[symmetric] sort_key_stable)

lemma sort_reverse_desc: "sorted_wrt (\<lambda>a b. key b \<le> key a) (sort_reverse key xs)"
proof -
  have "sorted (rev (map key (sort_reverse key xs)))"
    by (simp add: sort_reverse_def rev_map[symmetric])
  then have "sorted_wrt (\<lambda>a b. b \<le> a) (map key (sort_reverse key xs))"
    by (simp add: sorted_wrt_rev)
  then show ?thesis by (simp add: sorted_wrt_map)
qed

lemma standings_key_le:
  "standings_key b \<le> standings_key a \<longleftrightarrow> ranks_not_below a b"
  by (auto simp: standings_key_def ranks_not_below_def less_eq_prod_def)

lemma standings_key_eq:
  "standings_key r = (p, g, f) \<longleftrightarrow> row_Pts r = p \<and> row_GD r = g \<and> row_GF r = f"
  by (simp add: standings_key_def)

text \<open>
  Claim C2. The rows come out in descending order of the tuple (Pts, GD, GF), and the sort
  is stable: for every value of the tuple, the rows that have it appear in the result in
  the order in which their teams arrived.
\<close>

theorem standings_sorted_stable:
  "sorted_wrt ranks_not_below (fst (get_standings d))
   \<and> filter (\<lambda>r. row_Pts r = p \<and> row_GD r = g \<and> row_GF r = f) (fst (get_standings d))
     = filter (\<lambda>r. row_Pts r = p \<and> row_GD r = g \<and> row_GF r = f)
         (map (team_stats d) (db_teams d))"
proof
  have "sorted_wrt (\<lambda>a b. standings_key b \<le> standings_key a) (fst (get_standings d))"
    by (simp add: get_standings_def sort_reverse_desc)
  then show "sorted_wrt ranks_not_below (fst (get_standings d))"
    by (simp add: standings_key_le)
next
  have "filter (\<lambda>r. standings_key r = (p, g, f)) (fst (get_standings d))
        = filter (\<lambda>r. standings_key r = (p, g, f)) (map (team_stats d) (db_teams d))"
    by (simp add: get_standings_def sort_reverse_stable)
  then show "filter (\<lambda>r. row_Pts r = p \<and> row_GD r = g \<and> row_GF r = f) (fst (get_standings d))
     = filter (\<lambda>r. row_Pts r = p \<and> row_GD r = g \<and> row_GF r = f)
         (map (team_stats d) (db_teams d))"
    by (simp add: standings_key_eq)
qed

theorem standings_sorted_stable_witness:
  "map (\<lambda>r. (name (row_team r), row_Pts r, row_GD r, row_GF r)) (fst (get_standings season))
     = [(''C'', 4, 3, 4), (''A'', 3, -2, 2), (''B'', 1, -1, 2), (''D'', 0, 0, 0), (''E'', 0, 0, 0)]
   \<and> sorted_wrt ranks_not_below (fst (get_standings season))
   \<and> map (name \<circ> row_team)
       (filter (\<lambda>r. row_Pts r = 0 \<and> row_GD r = 0 \<and> row_GF r = 0) (fst (get_standings season)))
     = [''D'', ''E'']"
proof -
  have t: "map (\<lambda>r. (name (row_team r), row_Pts r, row_GD r, row_GF r)) (fst (get_standings season))
     = [(''C'', 4, 3, 4), (''A'', 3, -2, 2), (''B'', 1, -1, 2), (''D'', 0, 0, 0), (''E'', 0, 0, 0)]"
    by code_simp
  have i: "map (name \<circ> row_team)
       (filter (\<lambda>r. row_Pts r = 0 \<and> row_GD r = 0 \<and> row_GF r = 0)
          (map (team_stats season) (db_teams season))) = [''D'', ''E'']"
    by code_simp
  show ?thesis
    using standings_sorted_stable[of season 0 0 0] t i by simp
qed

lemma sort_key_const:
  assumes "\<forall>x\<in>set xs. key x = k"
  shows "sort_key key xs = xs"
proof -
  have "filter (\<lambda>y. key y = k) (sort_key key xs) = filter (\<lambda>y. key y = k) xs"
    by (rule sort_key_stable)
  moreover have "filter (\<lambda>y. key y = k) (sort_key key xs) = sort_key key xs"
    using assms by (intro filter_True) simp
  moreover have "filter (\<lambda>y. key y = k) xs = xs"
    using assms by (intro filter_True) simp
  ultimately show ?thesis by simp
qed

lemma sort_reverse_const:
  assumes "\<forall>x\<in>set xs. key x = k"
  shows "sort_reverse key xs = xs"
  using assms by (simp add: sort_reverse_def sort_key_const[where k = k])

lemma team_stats_unplayed:
  assumes "\<forall>m\<in>set (db_matches d). \<not> is_played m"
  shows "team_stats d t = zero_row t"
proof -
  have "all_played d t = []"
    using assms by (auto simp: all_played_def filter_empty_conv)
  then show ?thesis by (simp add: team_stats_def zero_row_def)
qed

text \<open>
  Claim C8. \<open>get_standings\<close> is a total function into tables: no input makes it fail.
  It leaves the store as it found it. When no match of the store is played, the table
  is the zero row of every team, one per team in the order of the teams; with no team the
  table is empty.
\<close>

theorem standings_no_played_matches:
  "snd (get_standings d) = d
   \<and> ((\<forall>m\<in>set (db_matches d). \<not> is_played m) \<longrightarrow>
        fst (get_standings d) = map zero_row (db_teams d))
   \<and> (db_teams d = [] \<longrightarrow> fst (get_standings d) = [])"
proof (intro conjI impI)
  show "snd (get_standings d) = d" by (simp add: get_standings_def)
next
  assume a: "\<forall>m\<in>set (db_matches d). \<not> is_played m"
  have "map (team_stats d) (db_teams d) = map zero_row (db_teams d)"
    using a by (simp add: team_stats_unplayed)
  moreover have "sort_reverse standings_key (map zero_row (db_teams d)) = map zero_row (db_teams d)"
    by (rule sort_reverse_const[where k = "(0, 0, 0)"]) (auto simp: standings_key_def zero_row_def)
  ultimately show "fst (get_standings d) = map zero_row (db_teams d)"
    by (simp add: get_standings_def Let_def del: map_eq_conv)
next
  assume "db_teams d = []"
  then show "fst (get_standings d) = []"
    by (simp add: get_standings_def sort_reverse_def)
qed

theorem standings_no_played_matches_witness:
  "db_matches \<lparr>db_teams = [team_B, team_A], db_matches = [Match team_A team_B kickoff False]\<rparr>
     = [Match team_A team_B kickoff False]
   \<and> \<not> is_played (Match team_A team_B kickoff False)
   \<and> get_standings \<lparr>db_teams = [team_B, team_A], db_matches = [Match team_A team_B kickoff False]\<rparr>
     = ([zero_row team_B, zero_row team_A],
        \<lparr>db_teams = [team_B, team_A], db_matches = [Match team_A team_B kickoff False]\<rparr>)
   \<and> db_teams (league []) = []
   \<and> get_standings (league []) = ([], league [])"
  using standings_no_played_matches[of "\<lparr>db_teams = [team_B, team_A],
                          db_matches = [Match team_A team_B kickoff False]\<rparr>"]
    standings_no_played_matches[of "league []"]
  by (simp add: Match_def league_def prod_eq_iff)

section \<open>Fixture generation: too few teams\<close>

lemma make_aware_start: "make_aware tz (combine (today + 1) 0) = Inr (start_date tz today)"
  by (simp add: make_aware_def combine_def start_date_def)

text \<open>
  Claim C9. With fewer than two teams the command ends with the \<open>CommandError\<close>, after its
  three opening lines and before any save: the store is the one it started from, so no
  match is persisted.
\<close>

theorem handle_too_few_teams:
  assumes "length (db_teams d) < 2"
  shows "handle err tz today d =
    (Inl (CommandError ''Need at least 2 teams to generate a schedule.''), d,
     [Starting, StartDateSet (start_date tz today), MatchDaysSeparated days_between_weeks])"
  using assms by (simp add: handle_def Let_def make_aware_start)

theorem handle_too_few_teams_witness:
  "length (db_teams (league [team_A])) < 2
   \<and> fst (handle never_fails nairobi 0 (league [team_A]))
       = Inl (CommandError ''Need at least 2 teams to generate a schedule.'')
   \<and> db_matches (fst (snd (handle never_fails nairobi 0 (league [team_A])))) = []
   \<and> length (db_teams (league [])) < 2
   \<and> fst (handle never_fails nairobi 0 (league []))
       = Inl (CommandError ''Need at least 2 teams to generate a schedule.'')
   \<and> db_matches (fst (snd (handle never_fails nairobi 0 (league [])))) = []"
proof -
  have one: "length (db_teams (league [team_A])) < 2" by (simp add: league_def)
  have none: "length (db_teams (league [])) < 2" by (simp add: league_def)
  show ?thesis
    using one none handle_too_few_teams[OF one, of never_fails nairobi 0]
      handle_too_few_teams[OF none, of never_fails nairobi 0]
    by (simp add: league_def)
qed

section \<open>The save loop\<close>

lemma foldr_pk_max:
  "foldr (\<lambda>r k. case match_pk r of None \<Rightarrow> k | Some j \<Rightarrow> max j k) rows a
   = max a (foldr (\<lambda>r k. case match_pk r of None \<Rightarrow> k | Some j \<Rightarrow> max j k) rows 0)"
  by (induction rows) (auto split: option.splits)

lemma next_pk_snoc:
  "match_pk m = Some (next_pk rows) \<Longrightarrow> next_pk (rows @ [m]) = Suc (next_pk rows)"
  by (simp add: next_pk_def foldr_pk_max[of _ "Suc _"])

lemma next_pk_fresh:
  "r \<in> set rows \<Longrightarrow> match_pk r = Some j \<Longrightarrow> j < next_pk rows"
  by (induction rows) (auto simp: next_pk_def split: option.splits)

lemma Match_save_insert:
  assumes "match_pk m = None"
  shows "Match_save err d no_args m =
     (case err (db_matches d) (flagged m) of
        Some e \<Rightarrow> (flagged m, Inl e)
      | None \<Rightarrow> (stored (next_pk (db_matches d)) m,
                 Inr (d\<lparr>db_matches := db_matches d @ [stored (next_pk (db_matches d)) m]\<rparr>)))"
  using assms
  by (auto simp: Match_save_def Model_save_def flagged_def stored_def Let_def no_args_def
      split: option.splits)

lemma length_stored_rows: "length (stored_rows k ms) = length ms"
  by (induction ms arbitrary: k) auto

lemma stored_rows_key:
  "m \<in> set (stored_rows k ms) \<Longrightarrow> \<exists>j\<ge>k. match_pk m = Some j"
proof (induction ms arbitrary: k)
  case Nil
  then show ?case by simp
next
  case (Cons a ms)
  then show ?case
    by (auto simp: stored_def) (meson Suc_leD)
qed

lemma stored_rows_unplayed:
  assumes "\<forall>m\<in>set ms. home_score m = 0 \<and> away_score m = 0"
    and "m \<in> set (stored_rows k ms)"
  shows "\<not> is_played m"
  using assms by (induction ms arbitrary: k) (auto simp: stored_def flagged_def)

lemma progress_lines_0: "progress_lines c 0 t = []"
  by (simp add: progress_lines_def)

lemma progress_lines_Suc:
  "progress_lines c (Suc k) t =
     (if Suc c mod 10 = 0 then [Progress (Suc c) t] else []) @ progress_lines (Suc c) k t"
proof -
  have "[Suc c..<Suc (c + Suc k)] = Suc c # [Suc (Suc c)..<Suc (Suc c + k)]"
    by (subst upt_rec) simp
  then show ?thesis by (simp add: progress_lines_def)
qed

text \<open>
  The loop, run on unsaved objects whose first \<open>k\<close> saves succeed: when \<open>k\<close> is the
  length of the list it ends normally, and otherwise the save of the object at index \<open>k\<close>
  raises \<open>e\<close>. Either way the store holds the rows of the first \<open>k\<close> objects after the
  old ones, and the counter has advanced by \<open>k\<close>.
\<close>

lemma save_loop_prefix:
  assumes "\<forall>m\<in>set ms. match_pk m = None"
    and "k \<le> length ms"
    and "\<forall>j<k. err (db_matches d @ stored_rows (next_pk (db_matches d)) (take j ms))
                   (flagged (ms ! j)) = None"
    and "k < length ms \<longrightarrow>
           err (db_matches d @ stored_rows (next_pk (db_matches d)) (take k ms))
               (flagged (ms ! k)) = Some e"
  shows "save_loop err t ms (d, c, out) =
     ((if k < length ms then Some e else None),
      d\<lparr>db_matches := db_matches d @ stored_rows (next_pk (db_matches d)) (take k ms)\<rparr>,
      c + k, out @ progress_lines c k t)"
  using assms
proof (induction ms arbitrary: d c out k)
  case Nil
  then show ?case by (simp add: progress_lines_0)
next
  case (Cons m rest)
  have pk: "match_pk m = None" using Cons.prems(1) by simp
  show ?case
  proof (cases k)
    case 0
    then have "err (db_matches d) (flagged m) = Some e" using Cons.prems(4) by simp
    then show ?thesis using 0 pk by (simp add: Match_save_insert progress_lines_0)
  next
    case (Suc k')
    let ?n = "next_pk (db_matches d)"
    let ?d1 = "d\<lparr>db_matches := db_matches d @ [stored ?n m]\<rparr>"
    have ok: "err (db_matches d) (flagged m) = None"
      using Cons.prems(3)[rule_format, of 0] Suc by simp
    have n1: "next_pk (db_matches d @ [stored ?n m]) = Suc ?n"
      by (simp add: next_pk_snoc stored_def)
    have step: "save_loop err t (m # rest) (d, c, out) =
        save_loop err t rest (?d1, Suc c,
          (if Suc c mod 10 = 0 then out @ [Progress (Suc c) t] else out))"
      using ok pk by (simp add: Match_save_insert Let_def)
    have a1: "\<forall>m\<in>set rest. match_pk m = None" using Cons.prems(1) by simp
    have a2: "k' \<le> length rest" using Cons.prems(2) Suc by simp
    have a3: "\<forall>j<k'. err (db_matches ?d1 @ stored_rows (next_pk (db_matches ?d1)) (take j rest))
                   (flagged (rest ! j)) = None"
    proof (intro allI impI)
      fix j assume "j < k'"
      then have "Suc j < k" using Suc by simp
      from Cons.prems(3)[rule_format, OF this] show
        "err (db_matches ?d1 @ stored_rows (next_pk (db_matches ?d1)) (take j rest))
             (flagged (rest ! j)) = None"
        by (simp add: n1)
    qed
    have a4: "k' < length rest \<longrightarrow>
           err (db_matches ?d1 @ stored_rows (next_pk (db_matches ?d1)) (take k' rest))
               (flagged (rest ! k')) = Some e"
      using Cons.prems(4) Suc by (simp add: n1)
    have "save_loop err t rest (?d1, Suc c,
          (if Suc c mod 10 = 0 then out @ [Progress (Suc c) t] else out)) =
      ((if k' < length rest then Some e else None),
       ?d1\<lparr>db_matches := db_matches ?d1 @ stored_rows (next_pk (db_matches ?d1)) (take k' rest)\<rparr>,
       Suc c + k',
       (if Suc c mod 10 = 0 then out @ [Progress (Suc c) t] else out) @ progress_lines (Suc c) k' t)"
      by (rule Cons.IH[OF a1 a2 a3 a4])
    then show ?thesis
      unfolding step using Suc by (simp add: n1 progress_lines_Suc)
  qed
qed

section \<open>The generated matches\<close>

lemma unsaved_Match: "unsaved (Match h a d False)"
  by (simp add: unsaved_def Match_def)

lemma unsaved_fields:
  "unsaved m \<Longrightarrow> match_pk m = None \<and> home_score m = 0 \<and> away_score m = 0 \<and> \<not> is_played m"
  by (cases m) (simp add: unsaved_def Match_def)

lemma pair_loop_unsaved:
  assumes "\<forall>m\<in>set (fst acc). unsaved m"
  shows "\<forall>m\<in>set (fst (pair_loop teams half_size dt idx acc)). unsaved m"
  using assms
proof (induction idx arbitrary: acc)
  case Nil
  then show ?case by simp
next
  case (Cons i rest)
  obtain ms out where acc: "acc = (ms, out)" by (cases acc)
  show ?case
    unfolding acc pair_loop.simps
    by (rule Cons.IH) (use Cons.prems acc in \<open>auto simp: unsaved_Match split: option.splits\<close>)
qed

lemma round_loop_unsaved:
  assumes "\<forall>m\<in>set (fst (snd (snd st))). unsaved m"
  shows "\<forall>m\<in>set (fst (snd (snd (round_loop n rounds st)))). unsaved m"
  using assms
proof (induction rounds arbitrary: st)
  case Nil
  then show ?case by simp
next
  case (Cons r rest)
  obtain teams dt ms out where st: "st = (teams, dt, ms, out)" by (cases st)
  let ?dt = "if r > 0 then plus_timedelta dt (timedelta days_between_weeks) else dt"
  let ?p = "pair_loop teams (n div 2) ?dt [0..<n div 2] (ms, out @ [RoundHeader (r + 1) ?dt])"
  have "\<forall>m\<in>set (fst ?p). unsaved m"
    by (rule pair_loop_unsaved) (use Cons.prems st in simp)
  then have "\<forall>m\<in>set (fst (snd (snd (round_loop n rest (rotate_seats teams, ?dt, fst ?p, snd ?p))))). unsaved m"
    by (intro Cons.IH) simp
  then show ?case
    unfolding st by (simp add: Let_def split_beta)
qed

lemma first_leg_unsaved: "\<forall>m\<in>set (fst (first_leg ts s)). unsaved m"
proof -
  have "\<forall>m\<in>set (fst (snd (snd (round_loop (length (seats ts)) [0..<length (seats ts) - 1]
          (seats ts, s, [], []))))). unsaved m"
    by (rule round_loop_unsaved) simp
  then show ?thesis by (simp add: first_leg_def Let_def split_beta)
qed

lemma fixtures_unsaved: "\<forall>m\<in>set (fst (fixtures ts s)). unsaved m"
  using first_leg_unsaved[of ts s]
  by (auto simp: fixtures_def Let_def split_beta second_leg_def match_away_def unsaved_Match)

text \<open>
  A run of \<open>handle\<close> on at least two teams whose first \<open>k\<close> saves succeed: the whole
  result, for a run that saves everything (\<open>k\<close> is the number of matches) and for a run
  whose save at index \<open>k\<close> raises \<open>e\<close>.
\<close>

lemma handle_run:
  assumes n: "2 \<le> length (db_teams d)"
    and ms: "ms = fst (fixtures (sort_key team_pk (db_teams d)) (start_date tz today))"
    and k: "k \<le> length ms"
    and ok: "\<forall>j<k. err (db_matches d @ stored_rows (next_pk (db_matches d)) (take j ms))
                   (flagged (ms ! j)) = None"
    and bad: "k < length ms \<longrightarrow>
           err (db_matches d @ stored_rows (next_pk (db_matches d)) (take k ms))
               (flagged (ms ! k)) = Some e"
  shows "handle err tz today d =
     (Inr (),
      d\<lparr>db_matches := db_matches d @ stored_rows (next_pk (db_matches d)) (take k ms)\<rparr>,
      opening_lines tz today d
      @ snd (fixtures (sort_key team_pk (db_teams d)) (start_date tz today))
      @ [Committing (length ms)]
      @ progress_lines 0 k (length ms)
      @ [if k < length ms then CriticalSaveError e else SuccessfullyCreated k])"
proof -
  have pk: "\<forall>m\<in>set ms. match_pk m = None"
    unfolding ms using fixtures_unsaved unsaved_fields by blast
  have loop: "save_loop err (length ms) ms (d, 0, out) =
     ((if k < length ms then Some e else None),
      d\<lparr>db_matches := db_matches d @ stored_rows (next_pk (db_matches d)) (take k ms)\<rparr>,
      0 + k, out @ progress_lines 0 k (length ms))" for out
    by (rule save_loop_prefix[OF pk k ok bad])
  have two: "\<not> length (db_teams d) < 2" using n by simp
  show ?thesis
    using two loop
    by (simp add: handle_def Let_def split_beta ms[symmetric] opening_lines_def make_aware_start)
qed

section \<open>Four teams\<close>

lemma upt_small:
  "[0..<1] = [0]" "[0..<2] = [0, 1]" "[0..<3] = [0, 1, 2]" "[0..<5] = [0, 1, 2, 3, 4]"
  by (simp_all add: upt_rec)

lemma first_leg_four:
  "fst (first_leg [a, b, c, d] s) =
     [Match a c s False, Match b d s False,
      Match a b (plus_timedelta s (timedelta 7)) False,
      Match d c (plus_timedelta s (timedelta 7)) False,
      Match a d (plus_timedelta (plus_timedelta s (timedelta 7)) (timedelta 7)) False,
      Match c b (plus_timedelta (plus_timedelta s (timedelta 7)) (timedelta 7)) False]"
  by (simp add: first_leg_def seats_def upt_small rotate_seats_def days_between_weeks_def Let_def)

lemma fixtures_four:
  "fst (fixtures [a, b, c, d] s) =
     fst (first_leg [a, b, c, d] s) @ map (match_away 3) (fst (first_leg [a, b, c, d] s))"
  by (simp add: fixtures_def seats_def second_leg_def Let_def split_beta numeral_3_eq_3)

lemma fixture_Match:
  "fixture u v (Match h w t p) = (team_pk h = team_pk u \<and> team_pk w = team_pk v)"
  by (simp add: fixture_def Match_def)

lemma fixture_match_away:
  "fixture u v (match_away n (Match h w t p)) = (team_pk w = team_pk u \<and> team_pk h = team_pk v)"
  by (simp add: fixture_def Match_def match_away_def)

lemma pairs_four:
  assumes "distinct [team_pk a, team_pk b, team_pk c, team_pk d]"
    and "x \<in> {a, b, c, d}" and "y \<in> {a, b, c, d}" and "team_pk x \<noteq> team_pk y"
  shows "length (filter (fixture x y) (fst (first_leg [a, b, c, d] s)))
         + length (filter (fixture y x) (fst (first_leg [a, b, c, d] s))) = 1
       \<and> length (filter (fixture y x) (map (match_away 3) (fst (first_leg [a, b, c, d] s))))
         = length (filter (fixture x y) (fst (first_leg [a, b, c, d] s)))"
proof -
  have x: "x = a \<or> x = b \<or> x = c \<or> x = d" using assms(2) by simp
  have y: "y = a \<or> y = b \<or> y = c \<or> y = d" using assms(3) by simp
  from x y show ?thesis
    using assms(1,4)
    by (elim disjE; simp add: first_leg_four fixture_Match fixture_match_away; fastforce)
qed

lemma stored_rows_fresh:
  assumes "m \<in> set (stored_rows (next_pk rows) ms)"
  shows "match_pk m \<noteq> None \<and> match_pk m \<notin> match_pk ` set rows"
proof -
  obtain j where j: "j \<ge> next_pk rows" "match_pk m = Some j"
    using stored_rows_key[OF assms] by blast
  have "match_pk r \<noteq> Some j" if "r \<in> set rows" for r
    using next_pk_fresh[OF that, of j] j(1) by auto
  then show ?thesis using j(2) by (auto simp: image_iff) metis
qed

text \<open>
  Claim C1. Four teams, in the order of their keys \<open>t1\<close>, \<open>t2\<close>, \<open>t3\<close>, \<open>t4\<close>, and a
  backend that never raises. The command generates twelve matches, the six of the first leg
  followed by the six of the second. In the first leg every pair of distinct teams meets
  exactly once, and the second leg holds that meeting with home and away swapped. The
  command returns normally and appends one row per generated match to the match table,
  each under a key that no earlier row has, and each with the played flag false.
\<close>

theorem four_teams_double_round_robin:
  assumes ts: "sort_key team_pk (db_teams d) = [t1, t2, t3, t4]"
    and pks: "distinct [team_pk t1, team_pk t2, team_pk t3, team_pk t4]"
    and ok: "\<forall>rows m. err rows m = None"
  shows "let leg1 = fst (first_leg [t1, t2, t3, t4] (start_date tz today));
             leg2 = drop 6 (fst (fixtures [t1, t2, t3, t4] (start_date tz today)));
             new = stored_rows (next_pk (db_matches d)) (leg1 @ leg2)
         in fst (fixtures [t1, t2, t3, t4] (start_date tz today)) = leg1 @ leg2
            \<and> length leg1 = 6 \<and> length leg2 = 6
            \<and> (\<forall>x\<in>{t1, t2, t3, t4}. \<forall>y\<in>{t1, t2, t3, t4}. team_pk x \<noteq> team_pk y \<longrightarrow>
                  length (filter (fixture x y) leg1) + length (filter (fixture y x) leg1) = 1
                  \<and> length (filter (fixture y x) leg2) = length (filter (fixture x y) leg1))
            \<and> fst (handle err tz today d) = Inr ()
            \<and> fst (snd (handle err tz today d)) = d\<lparr>db_matches := db_matches d @ new\<rparr>
            \<and> length new = 12
            \<and> (\<forall>m\<in>set new. \<not> is_played m \<and> match_pk m \<noteq> None
                  \<and> match_pk m \<notin> match_pk ` set (db_matches d))"
proof -
  define s where "s = start_date tz today"
  define leg1 where "leg1 = fst (first_leg [t1, t2, t3, t4] s)"
  define ms where "ms = fst (fixtures [t1, t2, t3, t4] s)"
  define new where "new = stored_rows (next_pk (db_matches d)) ms"
  have len1: "length leg1 = 6" by (simp add: leg1_def first_leg_four)
  have ms_eq: "ms = leg1 @ map (match_away 3) leg1"
    by (simp add: ms_def leg1_def fixtures_four)
  have leg2: "drop 6 ms = map (match_away 3) leg1" by (simp add: ms_eq len1)
  have lenms: "length ms = 12" by (simp add: ms_eq len1)
  have pairs: "\<forall>x\<in>{t1, t2, t3, t4}. \<forall>y\<in>{t1, t2, t3, t4}. team_pk x \<noteq> team_pk y \<longrightarrow>
                  length (filter (fixture x y) leg1) + length (filter (fixture y x) leg1) = 1
                  \<and> length (filter (fixture y x) (drop 6 ms)) = length (filter (fixture x y) leg1)"
    unfolding leg2 leg1_def using pairs_four[OF pks] by blast
  have n: "2 \<le> length (db_teams d)"
    using arg_cong[OF ts, of length] by simp
  have msd: "ms = fst (fixtures (sort_key team_pk (db_teams d)) (start_date tz today))"
    by (simp add: ms_def ts s_def)
  have run: "handle err tz today d =
     (Inr (), d\<lparr>db_matches := db_matches d @ stored_rows (next_pk (db_matches d)) (take (length ms) ms)\<rparr>,
      opening_lines tz today d
      @ snd (fixtures (sort_key team_pk (db_teams d)) (start_date tz today))
      @ [Committing (length ms)]
      @ progress_lines 0 (length ms) (length ms)
      @ [if length ms < length ms then CriticalSaveError undefined else SuccessfullyCreated (length ms)])"
    by (rule handle_run[OF n msd]) (use ok in simp_all)
  have unsaved: "\<forall>m\<in>set ms. home_score m = 0 \<and> away_score m = 0"
    unfolding ms_def using fixtures_unsaved unsaved_fields by blast
  have new_ok: "\<forall>m\<in>set new. \<not> is_played m \<and> match_pk m \<noteq> None
                  \<and> match_pk m \<notin> match_pk ` set (db_matches d)"
    unfolding new_def using stored_rows_unplayed[OF unsaved] stored_rows_fresh by blast
  have split: "leg1 @ drop 6 ms = ms" by (simp add: ms_eq len1)
  have len2: "length (drop 6 ms) = 6" by (simp add: lenms)
  have h1: "fst (handle err tz today d) = Inr ()" by (simp add: run)
  have h2: "fst (snd (handle err tz today d)) = d\<lparr>db_matches := db_matches d @ new\<rparr>"
    by (simp add: run new_def)
  have lennew: "length new = 12" by (simp add: new_def length_stored_rows lenms)
  show ?thesis
    unfolding Let_def s_def[symmetric] leg1_def[symmetric] ms_def[symmetric] split
      new_def[symmetric]
    by (intro conjI refl len1 len2 pairs h1 h2 lennew new_ok)
qed

theorem four_teams_double_round_robin_witness:
  "sort_key team_pk (db_teams (league [team_D, team_B, team_A, team_C]))
     = [team_A, team_B, team_C, team_D]
   \<and> distinct [team_pk team_A, team_pk team_B, team_pk team_C, team_pk team_D]
   \<and> fst (handle never_fails nairobi 0 (league [team_D, team_B, team_A, team_C])) = Inr ()
   \<and> map (\<lambda>m. (match_pk m, name (home_team m), name (away_team m), is_played m))
        (db_matches (fst (snd (handle never_fails nairobi 0 (league [team_D, team_B, team_A, team_C])))))
     = [(Some 1, ''A'', ''C'', False), (Some 2, ''B'', ''D'', False),
        (Some 3, ''A'', ''B'', False), (Some 4, ''D'', ''C'', False),
        (Some 5, ''A'', ''D'', False), (Some 6, ''C'', ''B'', False),
        (Some 7, ''C'', ''A'', False), (Some 8, ''D'', ''B'', False),
        (Some 9, ''B'', ''A'', False), (Some 10, ''C'', ''D'', False),
        (Some 11, ''D'', ''A'', False), (Some 12, ''B'', ''C'', False)]"
proof -
  have h1: "sort_key team_pk (db_teams (league [team_D, team_B, team_A, team_C]))
     = [team_A, team_B, team_C, team_D]"
    by code_simp
  have h2: "distinct [team_pk team_A, team_pk team_B, team_pk team_C, team_pk team_D]"
    by code_simp
  have h3: "\<forall>rows m. never_fails rows m = None"
    by (simp add: never_fails_def)
  have run: "fst (handle never_fails nairobi 0 (league [team_D, team_B, team_A, team_C])) = Inr ()"
    using four_teams_double_round_robin[OF h1 h2 h3, where today = 0 and tz = nairobi]
    unfolding Let_def by (elim conjE) assumption
  have rows: "map (\<lambda>m. (match_pk m, name (home_team m), name (away_team m), is_played m))
        (db_matches (fst (snd (handle never_fails nairobi 0 (league [team_D, team_B, team_A, team_C])))))
     = [(Some 1, ''A'', ''C'', False), (Some 2, ''B'', ''D'', False),
        (Some 3, ''A'', ''B'', False), (Some 4, ''D'', ''C'', False),
        (Some 5, ''A'', ''D'', False), (Some 6, ''C'', ''B'', False),
        (Some 7, ''C'', ''A'', False), (Some 8, ''D'', ''B'', False),
        (Some 9, ''B'', ''A'', False), (Some 10, ''C'', ''D'', False),
        (Some 11, ''D'', ''A'', False), (Some 12, ''B'', ''C'', False)]"
    by code_simp
  show ?thesis by (intro conjI h1 h2 run rows)
qed

section \<open>Two teams\<close>

lemma stored_rows_dates: "map match_date (stored_rows k ms) = map match_date ms"
  by (induction ms arbitrary: k) (auto simp: stored_def flagged_def)

lemma handle_all_saved:
  assumes n: "2 \<le> length (db_teams d)" and ok: "\<forall>rows m. err rows m = None"
  shows "fst (handle err tz today d) = Inr ()
       \<and> fst (snd (handle err tz today d)) =
           d\<lparr>db_matches := db_matches d @ stored_rows (next_pk (db_matches d))
               (fst (fixtures (sort_key team_pk (db_teams d)) (start_date tz today)))\<rparr>"
proof -
  define ms where "ms = fst (fixtures (sort_key team_pk (db_teams d)) (start_date tz today))"
  have "handle err tz today d =
     (Inr (), d\<lparr>db_matches := db_matches d @ stored_rows (next_pk (db_matches d)) (take (length ms) ms)\<rparr>,
      opening_lines tz today d
      @ snd (fixtures (sort_key team_pk (db_teams d)) (start_date tz today))
      @ [Committing (length ms)]
      @ progress_lines 0 (length ms) (length ms)
      @ [if length ms < length ms then CriticalSaveError undefined else SuccessfullyCreated (length ms)])"
    by (rule handle_run[OF n ms_def]) (use ok in simp_all)
  then show ?thesis by (simp add: ms_def)
qed

lemma fixtures_two:
  "fst (fixtures [a, b] s) = [Match a b s False]"
  by (simp add: fixtures_def first_leg_def seats_def upt_small rotate_seats_def Let_def)

text \<open>
  Claim C6, as the code has it. With exactly two teams the second leg is not generated:
  the guard of phase 2 asks for more than two teams. The command generates the single
  match of the first leg, the team of the lower key at home, and a backend that never
  raises leaves exactly that one new row in the match table. The claim as stated, that
  the two teams also get the reverse fixture, fails on the two-team league below.
\<close>

theorem two_teams_single_leg:
  assumes ts: "sort_key team_pk (db_teams d) = [t1, t2]"
    and ok: "\<forall>rows m. err rows m = None"
  shows "fst (fixtures [t1, t2] (start_date tz today)) = [Match t1 t2 (start_date tz today) False]
       \<and> fst (handle err tz today d) = Inr ()
       \<and> fst (snd (handle err tz today d)) =
           d\<lparr>db_matches := db_matches d
                @ [stored (next_pk (db_matches d)) (Match t1 t2 (start_date tz today) False)]\<rparr>"
proof -
  have n: "2 \<le> length (db_teams d)" using arg_cong[OF ts, of length] by simp
  show ?thesis
    using handle_all_saved[OF n ok, where today = today and tz = tz] by (simp add: ts fixtures_two)
qed

theorem two_teams_single_leg_witness:
  "sort_key team_pk (db_teams (league [team_B, team_A])) = [team_A, team_B]
   \<and> fst (handle never_fails nairobi 0 (league [team_B, team_A])) = Inr ()
   \<and> db_matches (fst (snd (handle never_fails nairobi 0 (league [team_B, team_A]))))
     = [(Match team_A team_B \<lparr>wall = 86400, tzinfo = Some nairobi\<rparr> False)\<lparr>match_pk := Some 1\<rparr>]"
proof -
  have h1: "sort_key team_pk (db_teams (league [team_B, team_A])) = [team_A, team_B]"
    by code_simp
  have h2: "\<forall>rows m. never_fails rows m = None"
    by (simp add: never_fails_def)
  show ?thesis
    using two_teams_single_leg[OF h1 h2, where today = 0 and tz = nairobi] h1
    by (simp add: league_def stored_def flagged_def Match_def next_pk_def start_date_def
        timedelta_def)
qed

theorem two_teams_reverse_fixture_counterexample:
  "map (\<lambda>m. (name (home_team m), name (away_team m)))
     (db_matches (fst (snd (handle never_fails nairobi 0 (league [team_A, team_B])))))
   = [(''A'', ''B'')]
   \<and> \<not> list_ex (fixture team_B team_A)
         (db_matches (fst (snd (handle never_fails nairobi 0 (league [team_A, team_B])))))"
  by code_simp

section \<open>The dates of four teams\<close>

lemma plus_timedelta_tzinfo: "tzinfo (plus_timedelta value delta) = tzinfo value"
  by (simp add: plus_timedelta_def)

lemma plus_timedelta_0: "plus_timedelta value 0 = value"
  by (simp add: plus_timedelta_def)

lemma plus_timedelta_eq: "plus_timedelta value a = plus_timedelta value b \<longleftrightarrow> a = b"
proof
  assume "plus_timedelta value a = plus_timedelta value b"
  then have "wall (plus_timedelta value a) = wall (plus_timedelta value b)" by simp
  then show "a = b" by (simp add: plus_timedelta_def)
qed simp

lemma plus_timedelta_eq_self:
  "plus_timedelta value a = value \<longleftrightarrow> a = 0" "value = plus_timedelta value a \<longleftrightarrow> a = 0"
  using plus_timedelta_eq[of "value" a 0] by (auto simp: plus_timedelta_0)

text \<open>
  Claim C4, as the code has it. For four teams the start is tomorrow at midnight, made
  aware in the time zone of the server: it is what \<open>make_aware\<close> returns on the naive
  \<open>combine\<close> of tomorrow and midnight. The three rounds of the first leg are dated start,
  start + 7 days and start + 2 * 7 days: every round after the first adds seven days to
  the date of the round before. Every match of the second leg is the match at the same
  position of the first leg with home and away swapped, dated that match's own date plus
  3 * 7 days. Every one of the twelve dates is aware, in the zone of the start. A backend
  that never raises stores the matches under these dates. The claim as stated puts the
  third round at start + 3 * 7 days, which fails on the league below.
\<close>

theorem four_teams_dates:
  assumes ts: "sort_key team_pk (db_teams d) = [t1, t2, t3, t4]"
    and ok: "\<forall>rows m. err rows m = None"
  shows "let s = start_date tz today;
             leg1 = fst (first_leg [t1, t2, t3, t4] s);
             leg2 = drop 6 (fst (fixtures [t1, t2, t3, t4] s))
         in make_aware tz (combine (today + 1) 0) = Inr s
            \<and> wall s = timedelta (today + 1) \<and> tzinfo s = Some tz
            \<and> map match_date leg1 =
                [s, s, plus_timedelta s (timedelta 7), plus_timedelta s (timedelta 7),
                 plus_timedelta s (timedelta (2 * 7)), plus_timedelta s (timedelta (2 * 7))]
            \<and> map match_date leg2 =
                map (\<lambda>m. plus_timedelta (match_date m) (timedelta (3 * 7))) leg1
            \<and> map home_team leg2 = map away_team leg1
            \<and> map away_team leg2 = map home_team leg1
            \<and> map (tzinfo \<circ> match_date) (leg1 @ leg2) = replicate 12 (Some tz)
            \<and> map match_date (drop (length (db_matches d))
                  (db_matches (fst (snd (handle err tz today d)))))
                = map match_date (leg1 @ leg2)"
proof -
  define s where "s = start_date tz today"
  define leg1 where "leg1 = fst (first_leg [t1, t2, t3, t4] s)"
  define ms where "ms = fst (fixtures [t1, t2, t3, t4] s)"
  have len1: "length leg1 = 6" by (simp add: leg1_def first_leg_four)
  have ms_eq: "ms = leg1 @ map (match_away 3) leg1"
    by (simp add: ms_def leg1_def fixtures_four)
  have leg2: "drop 6 ms = map (match_away 3) leg1" by (simp add: ms_eq len1)
  have split: "leg1 @ drop 6 ms = ms" by (simp add: ms_eq len1)
  have c0: "make_aware tz (combine (today + 1) 0) = Inr s"
    by (simp add: s_def make_aware_start)
  have c1: "wall s = timedelta (today + 1)" by (simp add: s_def start_date_def)
  have c1': "tzinfo s = Some tz" by (simp add: s_def start_date_def)
  have c2: "map match_date leg1 =
      [s, s, plus_timedelta s (timedelta 7), plus_timedelta s (timedelta 7),
       plus_timedelta s (timedelta (2 * 7)), plus_timedelta s (timedelta (2 * 7))]"
    by (simp add: leg1_def first_leg_four Match_def timedelta_def plus_timedelta_def)
  have c3: "map match_date (drop 6 ms) =
      map (\<lambda>m. plus_timedelta (match_date m) (timedelta (3 * 7))) leg1"
    by (simp add: leg2 match_away_def Match_def days_between_weeks_def)
  have c4: "map home_team (drop 6 ms) = map away_team leg1"
    by (simp add: leg2 match_away_def Match_def)
  have c5: "map away_team (drop 6 ms) = map home_team leg1"
    by (simp add: leg2 match_away_def Match_def)
  have c7: "map (tzinfo \<circ> match_date) ms = replicate 12 (Some tz)"
    by (simp add: ms_eq leg1_def first_leg_four match_away_def Match_def plus_timedelta_tzinfo
        c1' numeral_eq_Suc)
  have n: "2 \<le> length (db_teams d)" using arg_cong[OF ts, of length] by simp
  have c6: "map match_date (drop (length (db_matches d))
                  (db_matches (fst (snd (handle err tz today d))))) = map match_date ms"
    using handle_all_saved[OF n ok, where today = today and tz = tz]
    by (simp add: ts ms_def s_def stored_rows_dates)
  show ?thesis
    unfolding Let_def s_def[symmetric] leg1_def[symmetric] ms_def[symmetric] split
    by (intro conjI c0 c1 c1' c2 c3 c4 c5 c6 c7)
qed

theorem four_teams_dates_witness:
  "sort_key team_pk (db_teams (league [team_A, team_B, team_C, team_D]))
     = [team_A, team_B, team_C, team_D]
   \<and> make_aware nairobi (combine (0 + 1) 0) = Inr \<lparr>wall = 86400, tzinfo = Some nairobi\<rparr>
   \<and> start_date nairobi 0 = \<lparr>wall = 86400, tzinfo = Some nairobi\<rparr>
   \<and> map (wall \<circ> match_date) (db_matches (fst (snd (handle never_fails nairobi 0
         (league [team_A, team_B, team_C, team_D])))))
     = [86400, 86400, 86400 + 7 * 86400, 86400 + 7 * 86400,
        86400 + 14 * 86400, 86400 + 14 * 86400,
        86400 + 21 * 86400, 86400 + 21 * 86400, 86400 + 28 * 86400, 86400 + 28 * 86400,
        86400 + 35 * 86400, 86400 + 35 * 86400]
   \<and> map (tzinfo \<circ> match_date) (db_matches (fst (snd (handle never_fails nairobi 0
         (league [team_A, team_B, team_C, team_D])))))
     = replicate 12 (Some nairobi)"
proof -
  have h1: "sort_key team_pk (db_teams (league [team_A, team_B, team_C, team_D]))
     = [team_A, team_B, team_C, team_D]"
    by code_simp
  have h2: "\<forall>rows m. never_fails rows m = None"
    by (simp add: never_fails_def)
  have e: "db_matches (league [team_A, team_B, team_C, team_D]) = []"
    by (simp add: league_def)
  have m: "map (wall \<circ> match_date) xs = map wall (map match_date xs)"
    "map (tzinfo \<circ> match_date) xs = map tzinfo (map match_date xs)" for xs :: "match list"
    by simp_all
  show ?thesis
    using four_teams_dates[OF h1 h2, where today = 0 and tz = nairobi] h1 e
    unfolding m
    by (simp add: Let_def timedelta_def start_date_def make_aware_def combine_def
        plus_timedelta_def first_leg_four fixtures_four match_away_def Match_def
        days_between_weeks_def numeral_eq_Suc)
qed

theorem third_round_date_counterexample:
  "match_date (fst (first_leg [team_A, team_B, team_C, team_D] (start_date nairobi 0)) ! 4)
     = plus_timedelta (start_date nairobi 0) (timedelta (2 * 7))
   \<and> match_date (fst (first_leg [team_A, team_B, team_C, team_D] (start_date nairobi 0)) ! 4)
     \<noteq> plus_timedelta (start_date nairobi 0) (timedelta (3 * 7))
   \<and> match_date (fst (first_leg [team_A, team_B, team_C, team_D] (start_date nairobi 0)) ! 5)
     \<noteq> plus_timedelta (start_date nairobi 0) (timedelta (3 * 7))"
  by (simp add: first_leg_four Match_def timedelta_def plus_timedelta_def start_date_def)

section \<open>Five teams and the bye\<close>

text \<open>
  Claim C7. For five teams a \<open>None\<close> seat is appended, so that there are six seats and
  five rounds. The first leg is the ten matches below: each of the five rounds, told apart
  by its date, holds exactly two matches, the team seated opposite the \<open>None\<close> seat
  having none.
\<close>

theorem five_teams_bye:
  "length (seats [t1, t2, t3, t4, t5]) = 6
   \<and> last (seats [t1, t2, t3, t4, t5]) = None
   \<and> fst (first_leg [t1, t2, t3, t4, t5] s) =
       [Match t1 t4 s False, Match t2 t5 s False,
        Match t1 t3 (plus_timedelta s (timedelta 7)) False,
        Match t2 t5 (plus_timedelta s (timedelta 7)) False,
        Match t1 t2 (plus_timedelta s (timedelta 14)) False,
        Match t5 t3 (plus_timedelta s (timedelta 14)) False,
        Match t4 t2 (plus_timedelta s (timedelta 21)) False,
        Match t5 t3 (plus_timedelta s (timedelta 21)) False,
        Match t1 t5 (plus_timedelta s (timedelta 28)) False,
        Match t4 t2 (plus_timedelta s (timedelta 28)) False]
   \<and> length (fst (first_leg [t1, t2, t3, t4, t5] s)) = 10
   \<and> map (\<lambda>r. length (filter
                          (\<lambda>m. match_date m = plus_timedelta s (timedelta (7 * int r)))
                          (fst (first_leg [t1, t2, t3, t4, t5] s)))) [0..<5]
     = [2, 2, 2, 2, 2]"
proof -
  have leg: "fst (first_leg [t1, t2, t3, t4, t5] s) =
       [Match t1 t4 s False, Match t2 t5 s False,
        Match t1 t3 (plus_timedelta s (timedelta 7)) False,
        Match t2 t5 (plus_timedelta s (timedelta 7)) False,
        Match t1 t2 (plus_timedelta s (timedelta 14)) False,
        Match t5 t3 (plus_timedelta s (timedelta 14)) False,
        Match t4 t2 (plus_timedelta s (timedelta 21)) False,
        Match t5 t3 (plus_timedelta s (timedelta 21)) False,
        Match t1 t5 (plus_timedelta s (timedelta 28)) False,
        Match t4 t2 (plus_timedelta s (timedelta 28)) False]"
    by (simp add: first_leg_def seats_def upt_small rotate_seats_def days_between_weeks_def
        Let_def timedelta_def plus_timedelta_def ac_simps)
  have rounds: "map (\<lambda>r. length (filter
                          (\<lambda>m. match_date m = plus_timedelta s (timedelta (7 * int r)))
                          (fst (first_leg [t1, t2, t3, t4, t5] s)))) [0..<5]
     = [2, 2, 2, 2, 2]"
    unfolding leg
    by (simp add: upt_small Match_def timedelta_def plus_timedelta_0 plus_timedelta_eq
        plus_timedelta_eq_self)
  show ?thesis
    unfolding leg using rounds[unfolded leg] by (simp add: seats_def)
qed

theorem five_teams_bye_witness:
  "map (\<lambda>m. (name (home_team m), name (away_team m), wall (match_date m)))
     (fst (first_leg [team_A, team_B, team_C, team_D, team_E] kickoff))
   = [(''A'', ''D'', 0), (''B'', ''E'', 0), (''A'', ''C'', 604800), (''B'', ''E'', 604800),
      (''A'', ''B'', 1209600), (''E'', ''C'', 1209600), (''D'', ''B'', 1814400),
      (''E'', ''C'', 1814400), (''A'', ''E'', 2419200), (''D'', ''B'', 2419200)]
   \<and> length (seats [team_A, team_B, team_C, team_D, team_E]) = 6"
  using five_teams_bye[of team_A team_B team_C team_D team_E kickoff]
  by (simp add: Match_def timedelta_def plus_timedelta_def kickoff_def
      team_A_def team_B_def team_C_def team_D_def team_E_def)

section \<open>The pairing rule\<close>

text \<open>
  Claim C5. The rotation is the claim's: the last seat moves to index 1 and the first
  seat stays. The pairing is not: the code pairs seat \<open>i\<close> with seat \<open>i + half_size\<close>,
  where the claim (the circle method) pairs seat \<open>i\<close> with seat \<open>N' - 1 - i\<close>. For four
  teams the first round is A-C, B-D instead of A-D, B-C. For six teams the first leg that
  the code generates is not a round robin: B-E, F-D, E-C, C-F and D-B are each scheduled
  twice, and B and C never meet.
\<close>

theorem pairing_rule_six_teams:
  "map (\<lambda>m. (name (home_team m), name (away_team m)))
     (fst (first_leg [team_A, team_B, team_C, team_D] kickoff))
   = [(''A'', ''C''), (''B'', ''D''), (''A'', ''B''), (''D'', ''C''), (''A'', ''D''), (''C'', ''B'')]
   \<and> map (\<lambda>m. (name (home_team m), name (away_team m)))
     (fst (first_leg [team_A, team_B, team_C, team_D, team_E, team_F] kickoff))
   = [(''A'', ''D''), (''B'', ''E''), (''C'', ''F''),
      (''A'', ''C''), (''F'', ''D''), (''B'', ''E''),
      (''A'', ''B''), (''E'', ''C''), (''F'', ''D''),
      (''A'', ''F''), (''D'', ''B''), (''E'', ''C''),
      (''A'', ''E''), (''C'', ''F''), (''D'', ''B'')]
   \<and> \<not> list_ex (\<lambda>m. fixture team_B team_C m \<or> fixture team_C team_B m)
         (fst (first_leg [team_A, team_B, team_C, team_D, team_E, team_F] kickoff))
   \<and> rotate_seats [Some team_A, Some team_B, Some team_C, Some team_D]
     = [Some team_A, Some team_D, Some team_B, Some team_C]"
  by code_simp

section \<open>A save that fails\<close>

text \<open>
  Claim C10, as the code has it. Let the first \<open>k\<close> saves of the generated matches
  succeed and the next one raise \<open>e\<close>. Then no further save is made: the match table is
  the old rows followed by the rows of the first \<open>k\<close> matches, which stay. The command
  returns normally, and the last line it writes is the error line with the text of \<open>e\<close>.
  Of counts, the output holds the number of matches to commit and one progress line for
  every tenth successful save; the number saved before the failure is not written. The
  claim as stated, that the failure is reported together with that number, fails below:
  a run that fails after three saves and a run that fails after five write the same lines.
\<close>

theorem handle_save_failure:
  assumes n: "2 \<le> length (db_teams d)"
    and ms: "ms = fst (fixtures (sort_key team_pk (db_teams d)) (start_date tz today))"
    and k: "k < length ms"
    and ok: "\<forall>j<k. err (db_matches d @ stored_rows (next_pk (db_matches d)) (take j ms))
                   (flagged (ms ! j)) = None"
    and bad: "err (db_matches d @ stored_rows (next_pk (db_matches d)) (take k ms))
               (flagged (ms ! k)) = Some e"
  shows "handle err tz today d =
     (Inr (),
      d\<lparr>db_matches := db_matches d @ stored_rows (next_pk (db_matches d)) (take k ms)\<rparr>,
      opening_lines tz today d
      @ snd (fixtures (sort_key team_pk (db_teams d)) (start_date tz today))
      @ [Committing (length ms)]
      @ progress_lines 0 k (length ms)
      @ [CriticalSaveError e])"
proof -
  have k': "k \<le> length ms" using k by simp
  have bad': "k < length ms \<longrightarrow>
           err (db_matches d @ stored_rows (next_pk (db_matches d)) (take k ms))
               (flagged (ms ! k)) = Some e"
    using bad by simp
  show ?thesis
    using handle_run[OF n ms k' ok bad'] k by simp
qed

lemma fails_at_length: "fails_at k rows m = (if length rows = k then Some ''database is locked'' else None)"
  by (simp add: fails_at_def)

theorem handle_save_failure_witness:
  "fst (handle (fails_at 3) nairobi 0 (league [team_A, team_B, team_C, team_D])) = Inr ()
   \<and> map (\<lambda>m. (match_pk m, name (home_team m), name (away_team m)))
       (db_matches (fst (snd (handle (fails_at 3) nairobi 0 (league [team_A, team_B, team_C, team_D])))))
     = [(Some 1, ''A'', ''C''), (Some 2, ''B'', ''D''), (Some 3, ''A'', ''B'')]
   \<and> last (snd (snd (handle (fails_at 3) nairobi 0 (league [team_A, team_B, team_C, team_D]))))
     = CriticalSaveError ''database is locked''"
proof -
  define L where "L = league [team_A, team_B, team_C, team_D]"
  define ms where "ms = fst (fixtures (sort_key team_pk (db_teams L)) (start_date nairobi 0))"
  have st: "sort_key team_pk (db_teams L) = [team_A, team_B, team_C, team_D]"
    unfolding L_def by code_simp
  have len: "length ms = 12" by (simp add: ms_def st fixtures_four first_leg_four)
  have old: "db_matches L = []" by (simp add: L_def league_def)
  have n: "2 \<le> length (db_teams L)" by (simp add: L_def league_def)
  have k: "3 < length ms" by (simp add: len)
  have ok: "\<forall>j<3. fails_at 3 (db_matches L @ stored_rows (next_pk (db_matches L)) (take j ms))
                   (flagged (ms ! j)) = None"
    by (simp add: fails_at_length length_stored_rows len old)
  have bad: "fails_at 3 (db_matches L @ stored_rows (next_pk (db_matches L)) (take 3 ms))
               (flagged (ms ! 3)) = Some ''database is locked''"
    by (simp add: fails_at_length length_stored_rows len old)
  have take3: "take 3 ms = [Match team_A team_C (start_date nairobi 0) False,
      Match team_B team_D (start_date nairobi 0) False,
      Match team_A team_B (plus_timedelta (start_date nairobi 0) (timedelta 7)) False]"
    by (simp add: ms_def st fixtures_four first_leg_four)
  have pk0: "next_pk [] = 1" by (simp add: next_pk_def)
  show ?thesis
    unfolding L_def[symmetric]
    using handle_save_failure[OF n ms_def k ok bad]
    by (simp add: old take3 pk0 stored_def flagged_def Match_def
        team_A_def team_B_def team_C_def team_D_def)
qed

theorem save_failure_count_counterexample:
  "snd (snd (handle (fails_at 3) nairobi 0 (league [team_A, team_B, team_C, team_D])))
     = snd (snd (handle (fails_at 5) nairobi 0 (league [team_A, team_B, team_C, team_D])))
   \<and> length (db_matches (fst (snd (handle (fails_at 3) nairobi 0
        (league [team_A, team_B, team_C, team_D]))))) = 3
   \<and> length (db_matches (fst (snd (handle (fails_at 5) nairobi 0
        (league [team_A, team_B, team_C, team_D]))))) = 5
   \<and> drop 20 (snd (snd (handle (fails_at 3) nairobi 0 (league [team_A, team_B, team_C, team_D]))))
     = [Committing 12, CriticalSaveError ''database is locked'']"
  by code_simp

end
